theory Spec2Isabelle
  imports Complex_Main
begin

unbundle bit_operations_syntax

section \<open>Python values and exceptions\<close>

text \<open>
  The exceptions that the modelled functions of \<^verbatim>\<open>Pserv.py\<close> can raise. The code has no
  exception classes of its own: a duplicate column and a header mismatch are a
  \<^verbatim>\<open>RuntimeError\<close> with a message, an unknown format code is the \<^verbatim>\<open>KeyError\<close> of a
  dictionary lookup.
\<close>

datatype error = KeyError | ValueError | IndexError | TypeError | OverflowError
  | ZeroDivisionError | RuntimeError string

text \<open>
  A floating point number is finite (\<open>Finite m e\<close> stands for \<open>m * 2 ^ e\<close>), an infinity or
  not a number.
\<close>

datatype pyfloat = Finite int int | PosInf | NegInf | NaN

text \<open>
  One cell of a table column: a string, an integer, a float, a bool, or, for a bit
  column (format \<^verbatim>\<open>NNNX\<close>), the bool array of one record.
\<close>

datatype cell = PyStr string | PyInt int | PyFloat pyfloat | PyBool bool | PyFlags "bool list"

text \<open>
  A column of \<^verbatim>\<open>astropy.io.fits\<close>: \<^verbatim>\<open>col.name\<close>, \<^verbatim>\<open>col.format\<close> and the per-record
  values \<^verbatim>\<open>bintable.data[col.name]\<close>. A binary table is the list \<^verbatim>\<open>bintable.columns\<close>.
\<close>

record column =
  col_name :: string
  col_format :: string
  col_data :: "cell list"

type_synonym bintable = "column list"

section \<open>Strings\<close>

abbreviation newline :: string where
  "newline \<equiv> [CHR 0x0A]"

text \<open>\<^verbatim>\<open>str.strip(chars)\<close> and \<^verbatim>\<open>str.strip()\<close>.\<close>

definition strip_chars :: "char list \<Rightarrow> string \<Rightarrow> string" where
  "strip_chars cs s = rev (dropWhile (\<lambda>c. c \<in> set cs) (rev (dropWhile (\<lambda>c. c \<in> set cs) s)))"

definition whitespace :: "char list" where
  "whitespace = [CHR '' '', CHR 0x09, CHR 0x0A, CHR 0x0B, CHR 0x0C, CHR 0x0D]"

definition strip :: "string \<Rightarrow> string" where
  "strip s = strip_chars whitespace s"

text \<open>\<^verbatim>\<open>str.split(sep)\<close> for a separator of one character.\<close>

fun split :: "char \<Rightarrow> string \<Rightarrow> string list" where
  "split sep [] = [[]]"
| "split sep (c # s) =
     (if c = sep then [] # split sep s
      else (c # hd (split sep s)) # tl (split sep s))"

text \<open>\<^verbatim>\<open>str.upper()\<close> on the ASCII letters.\<close>

definition upper_char :: "char \<Rightarrow> char" where
  "upper_char c =
     (case map_of (zip ''abcdefghijklmnopqrstuvwxyz'' ''ABCDEFGHIJKLMNOPQRSTUVWXYZ'') c of
        Some u \<Rightarrow> u
      | None \<Rightarrow> c)"

definition upper :: "string \<Rightarrow> string" where
  "upper s = map upper_char s"

text \<open>\<^verbatim>\<open>'%i' % n\<close> for a natural number: its decimal digits.\<close>

definition digit_char :: "nat \<Rightarrow> char" where
  "digit_char d = ''0123456789'' ! d"

fun str_nat :: "nat \<Rightarrow> string" where
  "str_nat n = (if n < 10 then [digit_char n] else str_nat (n div 10) @ [digit_char (n mod 10)])"

declare str_nat.simps [simp del]

text \<open>
  \<^verbatim>\<open>int(s)\<close> on a string: surrounding whitespace is ignored, then an optional sign and at
  least one decimal digit are read; anything else is a \<^verbatim>\<open>ValueError\<close>.
\<close>

definition digit_val :: "char \<Rightarrow> nat option" where
  "digit_val c = map_of (zip ''0123456789'' [0, 1, 2, 3, 4, 5, 6, 7, 8, 9]) c"

definition digits_val :: "string \<Rightarrow> nat" where
  "digits_val s = fold (\<lambda>c acc. 10 * acc + the (digit_val c)) s 0"

definition unsigned_literal :: "string \<Rightarrow> error + int" where
  "unsigned_literal s =
     (if s \<noteq> [] \<and> list_all (\<lambda>c. digit_val c \<noteq> None) s then Inr (int (digits_val s))
      else Inl ValueError)"

definition py_int :: "string \<Rightarrow> error + int" where
  "py_int s =
     (case strip s of
        [] \<Rightarrow> Inl ValueError
      | c # r \<Rightarrow>
          if c = CHR ''-'' then map_sum id uminus (unsigned_literal r)
          else if c = CHR ''+'' then unsigned_literal r
          else unsigned_literal (c # r))"

text \<open>
  \<^verbatim>\<open>float(s)\<close> is applied to the repeat count of a bit column's format, which in a FITS
  format code is a string of decimal digits. The model reads the integer literals that
  \<open>py_int\<close> reads, with the same value; the other literals of \<^verbatim>\<open>float\<close> (fraction,
  exponent, \<^verbatim>\<open>inf\<close>, \<^verbatim>\<open>nan\<close>) are not part of the model.
\<close>

definition py_float :: "string \<Rightarrow> error + int" where
  "py_float s = py_int s"

text \<open>
  \<^verbatim>\<open>int(np.ceil(float(a)/b))\<close> for integers \<open>a\<close> and \<open>b \<noteq> 0\<close>. The division is exact in
  double precision for the lengths and widths that occur (below \<open>2 ^ 53\<close>), so the model
  computes the ceiling of the exact quotient.
\<close>

definition ceil_div :: "int \<Rightarrow> int \<Rightarrow> int" where
  "ceil_div a b = - ((- a) div b)"

section \<open>Packing bit flags: \<^verbatim>\<open>BinTableData.pack_flags\<close>\<close>

text \<open>
  \<^verbatim>\<open>sum([long(2**i) for i, flag in enumerate(subarr) if flag])\<close>
\<close>

definition pack_chunk :: "bool list \<Rightarrow> int" where
  "pack_chunk subarr = sum_list (map (\<lambda>(i, flag). 2 ^ i) (filter snd (enumerate 0 subarr)))"

text \<open>
  \<^verbatim>\<open>flags[i*nbits:(i+1)*nbits]\<close> is read only when \<open>num_ints\<close> is positive, that is for
  positive \<open>nbits\<close>, where the slice is \<open>nbits\<close> elements from position \<open>i * nbits\<close> on.
  With \<open>nbits = 0\<close> the float division raises.
\<close>

definition pack_flags :: "bool list \<Rightarrow> int \<Rightarrow> error + int list" where
  "pack_flags flags nbits =
     (if nbits = 0 then Inl ZeroDivisionError
      else
        let num_ints = ceil_div (int (length flags)) nbits;
            subarrs = map (\<lambda>i. take (nat nbits) (drop (i * nat nbits) flags)) [0..<nat num_ints];
            values = map pack_chunk subarrs
        in Inr values)"

section \<open>The column materializer: \<^verbatim>\<open>BinTableData\<close>\<close>

text \<open>
  \<^verbatim>\<open>BinTableData\<close> is an \<^verbatim>\<open>OrderedDict\<close> with the attribute \<^verbatim>\<open>nrows\<close>. Assigning to a
  key that is present replaces its value in place, any other key is appended.
\<close>

type_synonym ordered_dict = "(string \<times> cell list) list"

record bin_table_data =
  items :: ordered_dict
  nrows :: nat

fun od_set :: "string \<Rightarrow> cell list \<Rightarrow> ordered_dict \<Rightarrow> ordered_dict" where
  "od_set k v [] = [(k, v)]"
| "od_set k v ((k', v') # kvs) =
     (if k' = k then (k', v) # kvs else (k', v') # od_set k v kvs)"

definition keys :: "bin_table_data \<Rightarrow> string list" where
  "keys t = map fst (items t)"

definition has_key :: "bin_table_data \<Rightarrow> string \<Rightarrow> bool" where
  "has_key t k = (k \<in> set (keys t))"

text \<open>\<^verbatim>\<open>zip(*lists)\<close>: the transposition, as long as the shortest list.\<close>

definition zip_star :: "'a list list \<Rightarrow> 'a list list" where
  "zip_star xss =
     (case xss of
        [] \<Rightarrow> []
      | xs # rest \<Rightarrow>
          map (\<lambda>i. map (\<lambda>ys. ys ! i) xss)
            [0..<fold (\<lambda>ys n. min (length ys) n) rest (length xs)])"

text \<open>
  \<^verbatim>\<open>np.array(flags, dtype=np.uint64)\<close> holds integers from 0 to \<open>2 ^ 64 - 1\<close>; a larger
  Python integer does not convert. The packed values are never negative.
\<close>

definition uint64_array :: "int list \<Rightarrow> error + cell list" where
  "uint64_array vs =
     (if list_all (\<lambda>v. 0 \<le> v \<and> v < 2 ^ 64) vs then Inr (map PyInt vs)
      else Inl OverflowError)"

text \<open>
  \<^verbatim>\<open>self.pack_flags(x, nbits=nbits) for x in bintable.data[col.name]\<close>: every record of a
  bit column is a bool array. A FITS table has no other cell in a column of format
  \<^verbatim>\<open>NNNX\<close>; the model makes one a \<^verbatim>\<open>TypeError\<close>.
\<close>

fun pack_records :: "cell list \<Rightarrow> int \<Rightarrow> error + int list list" where
  "pack_records [] nbits = Inr []"
| "pack_records (PyFlags x # xs) nbits =
     (case pack_flags x nbits of
        Inl e \<Rightarrow> Inl e
      | Inr v \<Rightarrow>
          (case pack_records xs nbits of
             Inl e \<Rightarrow> Inl e
           | Inr vs \<Rightarrow> Inr (v # vs)))"
| "pack_records (_ # xs) nbits = Inl TypeError"

text \<open>
  \<^verbatim>\<open>for i, flags in enumerate(flag_cols): self[name] = np.array(flags, dtype=np.uint64)\<close>
\<close>

fun store_flag_cols :: "string \<Rightarrow> (nat \<times> int list) list \<Rightarrow> ordered_dict \<Rightarrow> error + ordered_dict" where
  "store_flag_cols colname [] d = Inr d"
| "store_flag_cols colname ((i, flags) # rest) d =
     (case uint64_array flags of
        Inl e \<Rightarrow> Inl e
      | Inr arr \<Rightarrow> store_flag_cols colname rest (od_set (upper colname @ str_nat (i + 1)) arr d))"

text \<open>The body of the loop over \<^verbatim>\<open>bintable.columns\<close> in \<^verbatim>\<open>BinTableData.__init__\<close>.\<close>

definition load_column :: "int \<Rightarrow> column \<Rightarrow> ordered_dict \<Rightarrow> error + ordered_dict" where
  "load_column nbits col d =
     (if col_format col = [] then Inl IndexError
      else if last (col_format col) = CHR ''X'' then
        (case pack_records (col_data col) nbits of
           Inl e \<Rightarrow> Inl e
         | Inr packed \<Rightarrow> store_flag_cols (col_name col) (enumerate 0 (zip_star packed)) d)
      else Inr (od_set (col_name col) (col_data col) d))"

fun load_columns :: "int \<Rightarrow> column list \<Rightarrow> ordered_dict \<Rightarrow> error + ordered_dict" where
  "load_columns nbits [] d = Inr d"
| "load_columns nbits (col # cols) d =
     (case load_column nbits col d of
        Inl e \<Rightarrow> Inl e
      | Inr d' \<Rightarrow> load_columns nbits cols d')"

text \<open>\<^verbatim>\<open>self.nrows = len(self.values()[0])\<close> raises on a table without columns.\<close>

definition BinTableData :: "bintable \<Rightarrow> int \<Rightarrow> error + bin_table_data" where
  "BinTableData bintable nbits =
     (case load_columns nbits bintable [] of
        Inl e \<Rightarrow> Inl e
      | Inr d \<Rightarrow>
          (case d of
             [] \<Rightarrow> Inl IndexError
           | (k, v) # _ \<Rightarrow> Inr \<lparr>items = d, nrows = length v\<rparr>))"

section \<open>The CSV emitter: \<^verbatim>\<open>create_csv_file_from_fits\<close>\<close>

text \<open>
  The body of the loop over \<^verbatim>\<open>added_columns.items()\<close>. The table is a mutable object:
  the step returns the table as it is after the step, and the exception if one was raised.
\<close>

definition add_column :: "bin_table_data \<Rightarrow> string \<times> cell \<Rightarrow> bin_table_data \<times> error option" where
  "add_column t nv =
     (case nv of (name, value) \<Rightarrow>
        if has_key t name then
          (t, Some (RuntimeError
                 (''Column named '' @ name @ '' already exists in the binary table data.'')))
        else (t\<lparr>items := od_set name (replicate (nrows t) value) (items t)\<rparr>, None))"

fun add_all_columns :: "bin_table_data \<Rightarrow> (string \<times> cell) list \<Rightarrow> bin_table_data \<times> error option" where
  "add_all_columns t [] = (t, None)"
| "add_all_columns t (nv # rest) =
     (case add_column t nv of
        (t', Some e) \<Rightarrow> (t', Some e)
      | (t', None) \<Rightarrow> add_all_columns t' rest)"

text \<open>
  A callback maps a column to a column, or raises. \<^verbatim>\<open>callbacks[colname](coldata)\<close> raises
  \<^verbatim>\<open>KeyError\<close> when there is no callback for the column.
\<close>

type_synonym callback = "cell list \<Rightarrow> error + cell list"

definition call_callback :: "(string \<rightharpoonup> callback) \<Rightarrow> string \<Rightarrow> cell list \<Rightarrow> error + cell list" where
  "call_callback callbacks colname coldata =
     (case callbacks colname of
        None \<Rightarrow> Inl KeyError
      | Some f \<Rightarrow> f coldata)"

text \<open>
  The body of the loop over \<^verbatim>\<open>column_mapping.values()\<close>: the column to write for one
  value of the mapping, which is the name of a column of the table or a constant.
\<close>

definition csv_column :: "bin_table_data \<Rightarrow> (string \<rightharpoonup> callback) \<Rightarrow> cell \<Rightarrow> error + cell list" where
  "csv_column t callbacks colname =
     (case colname of
        PyStr s \<Rightarrow>
          (case map_of (items t) s of
             Some coldata \<Rightarrow>
               (case call_callback callbacks s coldata of
                  Inl KeyError \<Rightarrow> Inr coldata
                | Inl e \<Rightarrow> Inl e
                | Inr coldata' \<Rightarrow> Inr coldata')
           | None \<Rightarrow> Inr (replicate (nrows t) colname))
      | _ \<Rightarrow> Inr (replicate (nrows t) colname))"

fun csv_columns :: "bin_table_data \<Rightarrow> (string \<rightharpoonup> callback) \<Rightarrow> cell list \<Rightarrow> error + cell list list" where
  "csv_columns t callbacks [] = Inr []"
| "csv_columns t callbacks (colname # rest) =
     (case csv_column t callbacks colname of
        Inl e \<Rightarrow> Inl e
      | Inr c \<Rightarrow>
          (case csv_columns t callbacks rest of
             Inl e \<Rightarrow> Inl e
           | Inr cs \<Rightarrow> Inr (c # cs)))"

text \<open>
  \<^verbatim>\<open>x if isinstance(x, str) or np.isfinite(x) else '\N'\<close>. For a bool array
  \<^verbatim>\<open>np.isfinite\<close> is an array of the same length, whose truth value is defined for at most
  one element.
\<close>

fun isfinite :: "pyfloat \<Rightarrow> bool" where
  "isfinite (Finite m e) = True"
| "isfinite PosInf = False"
| "isfinite NegInf = False"
| "isfinite NaN = False"

definition null_marker :: string where
  "null_marker = [CHR 0x5C, CHR ''N'']"

fun csv_value :: "cell \<Rightarrow> error + cell" where
  "csv_value (PyStr s) = Inr (PyStr s)"
| "csv_value (PyInt n) = Inr (PyInt n)"
| "csv_value (PyBool b) = Inr (PyBool b)"
| "csv_value (PyFloat x) = Inr (if isfinite x then PyFloat x else PyStr null_marker)"
| "csv_value (PyFlags []) = Inr (PyStr null_marker)"
| "csv_value (PyFlags [b]) = Inr (PyFlags [b])"
| "csv_value (PyFlags (b # c # bs)) = Inl ValueError"

fun csv_row :: "cell list \<Rightarrow> error + cell list" where
  "csv_row [] = Inr []"
| "csv_row (x # xs) =
     (case csv_value x of
        Inl e \<Rightarrow> Inl e
      | Inr y \<Rightarrow>
          (case csv_row xs of
             Inl e \<Rightarrow> Inl e
           | Inr ys \<Rightarrow> Inr (y # ys)))"

text \<open>
  The file is the list of the rows given to \<^verbatim>\<open>writer.writerow\<close>, in order. An exception
  leaves the rows written so far.
\<close>

fun write_rows :: "cell list list \<Rightarrow> cell list list \<Rightarrow> cell list list \<times> error option" where
  "write_rows written [] = (written, None)"
| "write_rows written (row # rest) =
     (case csv_row row of
        Inl e \<Rightarrow> (written, Some e)
      | Inr r \<Rightarrow> write_rows (written @ [r]) rest)"

text \<open>
  The result is the content of the CSV file (\<open>None\<close> when the file was not opened) and the
  exception raised, if any. A mapping or dictionary argument is the list of its items in
  iteration order.
\<close>

definition create_csv_file_from_fits ::
  "bintable \<Rightarrow> (string \<times> cell) list option \<Rightarrow> (string \<rightharpoonup> callback) option
     \<Rightarrow> (string \<times> cell) list option \<Rightarrow> cell list list option \<times> error option" where
  "create_csv_file_from_fits bintable column_mapping callbacks added_columns =
     (let callbacks = (case callbacks of None \<Rightarrow> Map.empty | Some c \<Rightarrow> c) in
      case BinTableData bintable 64 of
        Inl e \<Rightarrow> (None, Some e)
      | Inr bintable_data0 \<Rightarrow>
          (case add_all_columns bintable_data0 (case added_columns of None \<Rightarrow> [] | Some a \<Rightarrow> a) of
             (_, Some e) \<Rightarrow> (None, Some e)
           | (bintable_data, None) \<Rightarrow>
               let column_mapping =
                     (case column_mapping of
                        None \<Rightarrow> map (\<lambda>name. (name, PyStr name)) (keys bintable_data)
                      | Some m \<Rightarrow> m);
                   colnames = map fst column_mapping;
                   header = map PyStr colnames
               in
                 (case csv_columns bintable_data callbacks (map snd column_mapping) of
                    Inl e \<Rightarrow> (Some [header], Some e)
                  | Inr columns \<Rightarrow>
                      (case write_rows [header] (zip_star columns) of
                         (written, r) \<Rightarrow> (Some written, r)))))"

section \<open>The schema emitter: \<^verbatim>\<open>create_schema_from_fits\<close>\<close>

definition type_map :: "string \<rightharpoonup> string" where
  "type_map =
     [''1D'' \<mapsto> ''DOUBLE'', ''1E'' \<mapsto> ''FLOAT'', ''1K'' \<mapsto> ''BIGINT'',
      ''1J'' \<mapsto> ''INT'', ''1I'' \<mapsto> ''SMALLINT'']"

text \<open>
  Both functions raise, if at all, before they write: the result is the text written to
  \<^verbatim>\<open>output\<close> by the call.
\<close>

definition write_bit_schema_column :: "column \<Rightarrow> string \<Rightarrow> error + string" where
  "write_bit_schema_column column padding =
     (let mysql_type = ''BIGINT UNSIGNED'';
          colsize = 64;
          format' = strip_chars [CHR 0x27] (col_format column)
      in
        case py_float (butlast format') of
          Inl e \<Rightarrow> Inl e
        | Inr num_bits \<Rightarrow>
            let ncols = ceil_div num_bits colsize in
              Inr (concat (map (\<lambda>icol.
                     padding @ (upper (col_name column) @ str_nat (icol + 1)) @ '' '' @ mysql_type
                       @ '','' @ newline)
                   [0..<nat ncols])))"

definition write_schema_column :: "column \<Rightarrow> string \<Rightarrow> error + string" where
  "write_schema_column column padding =
     (let format' = strip_chars [CHR 0x27] (col_format column) in
        if format' = [] then Inl IndexError
        else if last format' = CHR ''X'' then write_bit_schema_column column padding
        else
          (case py_int (butlast format') of
             Inl e \<Rightarrow> Inl e
           | Inr n \<Rightarrow>
               if n \<noteq> 1 then Inr []
               else
                 (case type_map format' of
                    None \<Rightarrow> Inl KeyError
                  | Some t \<Rightarrow> Inr (padding @ col_name column @ '' '' @ t @ '','' @ newline))))"

fun write_schema_columns :: "column list \<Rightarrow> string \<Rightarrow> string \<Rightarrow> string \<times> error option" where
  "write_schema_columns [] padding output = (output, None)"
| "write_schema_columns (column # rest) padding output =
     (case write_schema_column column padding of
        Inl e \<Rightarrow> (output, Some e)
      | Inr text \<Rightarrow> write_schema_columns rest padding (output @ text))"

text \<open>The result is the text written to \<^verbatim>\<open>outfile\<close> and the exception raised, if any.\<close>

definition create_schema_from_fits ::
  "bintable \<Rightarrow> string \<Rightarrow> string \<Rightarrow> string list \<Rightarrow> string \<times> error option" where
  "create_schema_from_fits bin_table table_name primary_key add_columns =
     (let padding = replicate 7 (CHR '' '');
          output = ''create table if not exists '' @ table_name @ '' ('' @ newline
      in
        case write_schema_columns bin_table padding output of
          (output, Some e) \<Rightarrow> (output, Some e)
        | (output, None) \<Rightarrow>
            (output @ concat (map (\<lambda>column. padding @ column @ '','' @ newline) add_columns)
               @ padding @ ''primary key ('' @ primary_key @ '')'' @ newline
               @ padding @ '')'' @ newline,
             None))"

section \<open>The header check of the load path: \<^verbatim>\<open>DbConnection.check_column_names\<close>\<close>

text \<open>
  \<^verbatim>\<open>csv_input.readline()\<close> on the content of the file: the first line with its line
  terminator.
\<close>

fun readline :: "string \<Rightarrow> string" where
  "readline [] = []"
| "readline (c # s) = (if c = CHR 0x0A then [c] else c # readline s)"

fun check_pairs :: "(string \<times> string) list \<Rightarrow> error + unit" where
  "check_pairs [] = Inr ()"
| "check_pairs ((csv_col, table_col) # rest) =
     (if csv_col \<noteq> table_col then
        Inl (RuntimeError (''Column name mismatch between csv file and db table: ''
               @ csv_col @ '' vs '' @ table_col))
      else check_pairs rest)"

text \<open>The argument \<open>csv_file\<close> is the content of the file of that name.\<close>

definition check_column_names :: "string list \<Rightarrow> string \<Rightarrow> error + unit" where
  "check_column_names column_names csv_file =
     (let csv_cols = split (CHR '','') (strip (readline csv_file)) in
        if length csv_cols \<noteq> length column_names then
          Inl (RuntimeError (''Number of columns in csv file do not match ''
                 @ ''the number of columns of db table.''))
        else check_pairs (zip csv_cols column_names))"

section \<open>The naming rule of the specification\<close>

text \<open>
  In the words of the specification: for a source column of name \<open>C\<close> and bit width \<open>W\<close>,
  \<open>ceil (W / 64)\<close> output identifiers \<open>C1\<close>, \<open>C2\<close>, \<open>\<dots>\<close>, uppercased. Both the materializer and
  the schema emitter are compared with this list.
\<close>

definition spec_flag_column_names :: "string \<Rightarrow> nat \<Rightarrow> string list" where
  "spec_flag_column_names C W = map (\<lambda>j. upper C @ str_nat (j + 1)) [0..<nat \<lceil>real W / 64\<rceil>]"

text \<open>
  The packed integers of one record, as \<open>pack_flags\<close> computes them for a positive width.
\<close>

definition chunks :: "nat \<Rightarrow> bool list \<Rightarrow> int list" where
  "chunks w f = map (\<lambda>k. pack_chunk (take w (drop (k * w) f))) [0..<nat (ceil_div (int (length f)) (int w))]"

section \<open>Example tables\<close>

text \<open>
  The table of the end-to-end scenario: a column \<^verbatim>\<open>RA\<close> of format \<^verbatim>\<open>1D\<close> and a column
  \<^verbatim>\<open>FLAGS\<close> of format \<^verbatim>\<open>9X\<close>, with two records.
\<close>

definition example_table :: "pyfloat \<Rightarrow> pyfloat \<Rightarrow> bintable" where
  "example_table ra1 ra2 =
     [\<lparr>col_name = ''RA'', col_format = ''1D'', col_data = [PyFloat ra1, PyFloat ra2]\<rparr>,
      \<lparr>col_name = ''FLAGS'', col_format = ''9X'',
       col_data = [PyFlags [True, False, True, True, False, True, True, True, False],
                   PyFlags (replicate 9 False)]\<rparr>]"

text \<open>A bit column of 142 bits with one record, and a table without records.\<close>

definition wide_column :: column where
  "wide_column = \<lparr>col_name = ''name'', col_format = ''142X'',
                   col_data = [PyFlags (replicate 142 True)]\<rparr>"

definition empty_table :: bintable where
  "empty_table =
     [\<lparr>col_name = ''RA'', col_format = ''1D'', col_data = []\<rparr>,
      \<lparr>col_name = ''name'', col_format = ''142X'', col_data = []\<rparr>]"

text \<open>Columns of a format without SQL type, and of a vector format.\<close>

definition char_column :: column where
  "char_column = \<lparr>col_name = ''band'', col_format = ''1A'', col_data = []\<rparr>"

definition vector_column :: column where
  "vector_column = \<lparr>col_name = ''cov'', col_format = ''3E'', col_data = []\<rparr>"


definition failing_callback :: callback where
  "failing_callback coldata = Inl KeyError"

definition csv_example :: string where
  "csv_example = ''RA,FLAGS1'' @ newline @ ''1.5,237'' @ newline"


section \<open>Properties of \<^verbatim>\<open>pack_flags\<close>\<close>

lemma pack_chunk_Nil: "pack_chunk [] = 0"
  by (simp add: pack_chunk_def)

lemma pack_enumerate_Suc:
  "sum_list (map (\<lambda>(i, flag). 2 ^ i) (filter snd (enumerate (Suc n) xs)))
     = 2 * sum_list (map (\<lambda>(i, flag). (2::int) ^ i) (filter snd (enumerate n xs)))"
  by (induction xs arbitrary: n) simp_all

lemma pack_chunk_Cons: "pack_chunk (x # xs) = of_bool x + 2 * pack_chunk xs"
  using pack_enumerate_Suc [of 0 xs] by (simp add: pack_chunk_def)

lemma pack_chunk_nonneg: "0 \<le> pack_chunk xs"
  by (induction xs) (simp_all add: pack_chunk_Nil pack_chunk_Cons)

lemma pack_chunk_less: "pack_chunk xs < 2 ^ length xs"
  by (induction xs) (simp_all add: pack_chunk_Nil pack_chunk_Cons)






lemma ceil_div_ceiling: "ceil_div a b = \<lceil>real_of_int a / real_of_int b\<rceil>"
  by (simp add: ceil_div_def ceiling_divide_eq_div)

lemma ceil_div_nat_ceiling: "int (nat (ceil_div (int n) (int w))) = \<lceil>real n / real w\<rceil>"
proof -
  have "0 \<le> real n / real w" by simp
  then have "-1 < real n / real w" by linarith
  then have "0 \<le> \<lceil>real n / real w\<rceil>" by (simp only: zero_le_ceiling)
  then show ?thesis by (simp add: ceil_div_ceiling)
qed









section \<open>Decimal numerals\<close>

lemma digit_val_digit_char: "d < 10 \<Longrightarrow> digit_val (digit_char d) = Some d"
proof -
  assume "d < 10"
  then have "d = 0 \<or> d = 1 \<or> d = 2 \<or> d = 3 \<or> d = 4 \<or> d = 5 \<or> d = 6 \<or> d = 7
      \<or> d = 8 \<or> d = 9"
    by arith
  then show ?thesis by (auto simp add: digit_val_def digit_char_def)
qed

lemma digit_char_in: "d < 10 \<Longrightarrow> digit_char d \<in> set ''0123456789''"
  unfolding digit_char_def by (rule nth_mem) simp

lemma set_str_nat: "set (str_nat n) \<subseteq> set ''0123456789''"
proof (induction n rule: str_nat.induct)
  case (1 n)
  show ?case
  proof (cases "n < 10")
    case True
    then show ?thesis using digit_char_in [of n] by (subst str_nat.simps) simp
  next
    case False
    have "n mod 10 < 10" by simp
    then show ?thesis using False 1 digit_char_in [of "n mod 10"]
      by (subst str_nat.simps) simp
  qed
qed

lemma str_nat_nonempty: "str_nat n \<noteq> []"
  by (subst str_nat.simps) simp

lemma digits_val_snoc: "digits_val (s @ [c]) = 10 * digits_val s + the (digit_val c)"
  by (simp add: digits_val_def)

lemma digits_val_str_nat: "digits_val (str_nat n) = n"
proof (induction n rule: str_nat.induct)
  case (1 n)
  show ?case
  proof (cases "n < 10")
    case True
    then show ?thesis
      by (subst str_nat.simps) (simp add: digits_val_def digit_val_digit_char)
  next
    case False
    have "n mod 10 < 10" by simp
    then have "the (digit_val (digit_char (n mod 10))) = n mod 10"
      by (simp add: digit_val_digit_char)
    then show ?thesis using False 1
      by (subst str_nat.simps) (simp add: digits_val_snoc)
  qed
qed

lemma str_nat_inject: "str_nat a = str_nat b \<Longrightarrow> a = b"
  by (metis digits_val_str_nat)

lemma strip_chars_id: "set s \<inter> set cs = {} \<Longrightarrow> strip_chars cs s = s"
proof -
  assume d: "set s \<inter> set cs = {}"
  have 1: "dropWhile (\<lambda>c. c \<in> set cs) s = s"
    using d by (cases s) auto
  have "set (rev s) \<inter> set cs = {}" using d by simp
  then have 2: "dropWhile (\<lambda>c. c \<in> set cs) (rev s) = rev s"
    by (cases "rev s") auto
  show ?thesis by (simp add: strip_chars_def 1 2)
qed

lemma digit_val_digits: "c \<in> set ''0123456789'' \<Longrightarrow> digit_val c \<noteq> None"
  by (auto simp add: digit_val_def)

lemma unsigned_literal_str_nat: "unsigned_literal (str_nat n) = Inr (int n)"
proof -
  have "list_all (\<lambda>c. digit_val c \<noteq> None) (str_nat n)"
    unfolding list_all_iff using set_str_nat [of n] digit_val_digits by blast
  then show ?thesis
    by (simp add: unsigned_literal_def str_nat_nonempty digits_val_str_nat)
qed

lemma py_int_str_nat: "py_int (str_nat n) = Inr (int n)"
proof -
  have "set (str_nat n) \<inter> set whitespace = {}"
    using set_str_nat [of n] by (auto simp add: whitespace_def)
  then have s: "strip (str_nat n) = str_nat n" by (simp add: strip_def strip_chars_id)
  obtain c r where cr: "str_nat n = c # r" using str_nat_nonempty [of n] by (cases "str_nat n") auto
  then have "c \<in> set ''0123456789''" using set_str_nat [of n] by auto
  then have "c \<noteq> CHR ''-''" "c \<noteq> CHR ''+''" by auto
  moreover have "strip (c # r) = c # r" using s cr by simp
  moreover have "unsigned_literal (c # r) = Inr (int n)"
    using unsigned_literal_str_nat [of n] cr by simp
  ultimately have "py_int (c # r) = Inr (int n)" by (simp add: py_int_def)
  then show ?thesis by (simp add: cr)
qed

lemma strip_quote_bit_format: "strip_chars [CHR 0x27] (str_nat W @ ''X'') = str_nat W @ ''X''"
proof -
  have "set (str_nat W @ ''X'') \<inter> set [CHR 0x27] = {}"
    using set_str_nat [of W] by auto
  then show ?thesis by (rule strip_chars_id)
qed

section \<open>Properties of the materializer and of the schema of a bit column\<close>

lemma od_set_fresh: "k \<notin> fst ` set d \<Longrightarrow> od_set k v d = d @ [(k, v)]"
  by (induction d) auto

lemma pack_flags_chunks: "0 < w \<Longrightarrow> pack_flags f (int w) = Inr (chunks w f)"
  by (simp add: pack_flags_def chunks_def)

lemma pack_records_flags:
  "0 < w \<Longrightarrow> pack_records (map PyFlags records) (int w) = Inr (map (chunks w) records)"
  by (induction records) (simp_all add: pack_flags_chunks)

lemma fold_min_length:
  "\<forall>ys\<in>set rest. length ys = n \<Longrightarrow> fold (\<lambda>ys m. min (length ys) m) rest n = n"
  by (induction rest) simp_all

lemma zip_star_uniform:
  assumes "xss \<noteq> []" and "\<forall>xs\<in>set xss. length xs = n"
  shows "zip_star xss = map (\<lambda>i. map (\<lambda>ys. ys ! i) xss) [0..<n]"
proof -
  obtain xs rest where x: "xss = xs # rest" using assms(1) by (cases xss) auto
  then have "length xs = n" and "\<forall>ys\<in>set rest. length ys = n" using assms(2) by simp_all
  then show ?thesis using fold_min_length [of rest n]
    by (simp add: zip_star_def x)
qed

lemma chunks_range: "v \<in> set (chunks 64 f) \<Longrightarrow> 0 \<le> v \<and> v < 2 ^ 64"
proof -
  assume "v \<in> set (chunks 64 f)"
  then obtain k where v: "v = pack_chunk (take 64 (drop (k * 64) f))"
    by (auto simp add: chunks_def)
  have "pack_chunk (take 64 (drop (k * 64) f)) < 2 ^ length (take 64 (drop (k * 64) f))"
    by (rule pack_chunk_less)
  also have "\<dots> \<le> (2::int) ^ 64" by (rule power_increasing) simp_all
  finally show ?thesis using v pack_chunk_nonneg by simp
qed

lemma uint64_array_ok:
  "\<forall>v\<in>set vs. 0 \<le> v \<and> v < 2 ^ 64 \<Longrightarrow> uint64_array vs = Inr (map PyInt vs)"
  by (simp add: uint64_array_def list_all_iff)

lemma store_flag_cols_keys:
  assumes "\<forall>flags\<in>set cols. \<forall>v\<in>set flags. 0 \<le> v \<and> v < 2 ^ 64"
    and "\<forall>j. m \<le> j \<and> j < m + length cols \<longrightarrow> upper C @ str_nat (j + 1) \<notin> fst ` set d"
  shows "\<exists>d'. store_flag_cols C (enumerate m cols) d = Inr d'
           \<and> map fst d' = map fst d @ map (\<lambda>j. upper C @ str_nat (j + 1)) [m..<m + length cols]"
  using assms
proof (induction cols arbitrary: m d)
  case Nil
  then show ?case by simp
next
  case (Cons flags cols)
  let ?nm = "\<lambda>j. upper C @ str_nat (j + 1)"
  let ?d = "d @ [(?nm m, map PyInt flags)]"
  have a: "uint64_array flags = Inr (map PyInt flags)"
    using Cons.prems(1) by (simp add: uint64_array_ok)
  have f: "?nm m \<notin> fst ` set d" using Cons.prems(2) by simp
  then have s: "od_set (?nm m) (map PyInt flags) d = ?d" by (rule od_set_fresh)
  have fresh: "\<forall>j. Suc m \<le> j \<and> j < Suc m + length cols \<longrightarrow> ?nm j \<notin> fst ` set ?d"
  proof (intro allI impI)
    fix j assume j: "Suc m \<le> j \<and> j < Suc m + length cols"
    then have "?nm j \<notin> fst ` set d" using Cons.prems(2) by simp
    moreover have "?nm j \<noteq> ?nm m" using j str_nat_inject [of "j + 1" "m + 1"] by auto
    ultimately show "?nm j \<notin> fst ` set ?d" by auto
  qed
  have r: "\<forall>flags\<in>set cols. \<forall>v\<in>set flags. 0 \<le> v \<and> v < 2 ^ 64" using Cons.prems(1) by simp
  obtain d' where d': "store_flag_cols C (enumerate (Suc m) cols) ?d = Inr d'"
    and k: "map fst d' = map fst ?d @ map ?nm [Suc m..<Suc m + length cols]"
    using Cons.IH [OF r fresh] by blast
  have st: "store_flag_cols C (enumerate m (flags # cols)) d = Inr d'"
    using a s d' by simp
  have "m < m + length (flags # cols)" by simp
  then have u1: "[m..<m + length (flags # cols)] = m # [Suc m..<m + length (flags # cols)]"
    by (rule upt_conv_Cons)
  have u2: "m + length (flags # cols) = Suc m + length cols" by simp
  have "[m..<m + length (flags # cols)] = m # [Suc m..<Suc m + length cols]"
    using u1 u2 by (simp only:)
  then have "map fst d' = map fst d @ map ?nm [m..<m + length (flags # cols)]"
    using k by (simp only: map_append list.map fst_conv append_assoc append_Cons append_Nil)
  then show ?case using st by blast
qed

lemma ncols_spec: "nat (ceil_div (int W) 64) = nat \<lceil>real W / 64\<rceil>"
proof -
  have "int (nat (ceil_div (int W) (int 64))) = \<lceil>real W / real 64\<rceil>"
    by (rule ceil_div_nat_ceiling)
  then have "nat (int (nat (ceil_div (int W) (int 64)))) = nat \<lceil>real W / real 64\<rceil>"
    by (rule arg_cong)
  then show ?thesis by (simp only: nat_int) simp
qed

lemma length_chunks: "length (chunks w f) = nat (ceil_div (int (length f)) (int w))"
  by (simp add: chunks_def)

lemma write_bit_schema_column_names:
  assumes "col_format col = str_nat W @ ''X''"
  shows "write_bit_schema_column col padding
           = Inr (concat (map (\<lambda>nm. padding @ nm @ '' BIGINT UNSIGNED,'' @ newline)
                    (spec_flag_column_names (col_name col) W)))"
proof -
  have "butlast (str_nat W @ ''X'') = str_nat W" by simp
  then show ?thesis
    by (simp add: write_bit_schema_column_def assms strip_quote_bit_format py_float_def
        py_int_str_nat spec_flag_column_names_def ncols_spec comp_def del: butlast_append butlast.simps)
qed

lemma write_schema_column_bit:
  assumes "col_format col = str_nat W @ ''X''"
  shows "write_schema_column col padding = write_bit_schema_column col padding"
  by (simp add: write_schema_column_def assms strip_quote_bit_format)

lemma load_column_bit:
  assumes fmt: "col_format col = str_nat W @ ''X''"
    and data: "col_data col = map PyFlags records"
    and ne: "records \<noteq> []"
    and len: "\<forall>r\<in>set records. length r = W"
  shows "load_column 64 col d
           = store_flag_cols (col_name col)
               (enumerate 0 (map (\<lambda>i. map (\<lambda>ys. ys ! i) (map (chunks 64) records))
                  [0..<nat \<lceil>real W / 64\<rceil>])) d"
    and "\<forall>flags\<in>set (map (\<lambda>i. map (\<lambda>ys. ys ! i) (map (chunks 64) records))
                  [0..<nat \<lceil>real W / 64\<rceil>]). \<forall>v\<in>set flags. 0 \<le> v \<and> v < 2 ^ 64"
proof -
  let ?n = "nat \<lceil>real W / 64\<rceil>"
  let ?packed = "map (chunks 64) records"
  let ?cols = "map (\<lambda>i. map (\<lambda>ys. ys ! i) ?packed) [0..<?n]"
  have p: "pack_records (col_data col) 64 = Inr ?packed"
    using pack_records_flags [of 64 records] by (simp add: data)
  have u: "\<forall>xs\<in>set ?packed. length xs = ?n"
    using len by (auto simp add: length_chunks ncols_spec)
  have z: "zip_star ?packed = ?cols"
    using ne u by (intro zip_star_uniform) simp_all
  show "load_column 64 col d = store_flag_cols (col_name col) (enumerate 0 ?cols) d"
    by (simp add: load_column_def fmt p z)
  show "\<forall>flags\<in>set ?cols. \<forall>v\<in>set flags. 0 \<le> v \<and> v < 2 ^ 64"
  proof (intro ballI)
    fix flags v assume "flags \<in> set ?cols" and v: "v \<in> set flags"
    then obtain i where i: "i < ?n" and f: "flags = map (\<lambda>ys. ys ! i) ?packed" by auto
    from v f obtain r where r: "r \<in> set records" and vr: "v = chunks 64 r ! i" by auto
    have "length (chunks 64 r) = ?n" using u r by simp
    then have "v \<in> set (chunks 64 r)" using vr i by simp
    then show "0 \<le> v \<and> v < 2 ^ 64" by (rule chunks_range)
  qed
qed

lemma load_column_names:
  assumes fmt: "col_format col = str_nat W @ ''X''"
    and data: "col_data col = map PyFlags records"
    and ne: "records \<noteq> []"
    and len: "\<forall>r\<in>set records. length r = W"
    and fresh: "\<forall>nm\<in>set (spec_flag_column_names (col_name col) W). nm \<notin> fst ` set d"
  shows "\<exists>d'. load_column 64 col d = Inr d'
           \<and> map fst d' = map fst d @ spec_flag_column_names (col_name col) W"
proof -
  let ?cols = "map (\<lambda>i. map (\<lambda>ys. ys ! i) (map (chunks 64) records)) [0..<nat \<lceil>real W / 64\<rceil>]"
  have fr: "\<forall>j. 0 \<le> j \<and> j < 0 + length ?cols
              \<longrightarrow> upper (col_name col) @ str_nat (j + 1) \<notin> fst ` set d"
    using fresh by (simp add: spec_flag_column_names_def)
  obtain d' where s: "store_flag_cols (col_name col) (enumerate 0 ?cols) d = Inr d'"
    and k: "map fst d' = map fst d
              @ map (\<lambda>j. upper (col_name col) @ str_nat (j + 1)) [0..<0 + length ?cols]"
    using store_flag_cols_keys [OF load_column_bit(2) [OF fmt data ne len] fr] by blast
  have "load_column 64 col d = Inr d'"
    using s load_column_bit(1) [OF fmt data ne len] by simp
  moreover have "map fst d' = map fst d @ spec_flag_column_names (col_name col) W"
    using k by (simp add: spec_flag_column_names_def)
  ultimately show ?thesis by blast
qed

lemma od_set_keys: "fst ` set (od_set k v d) = insert k (fst ` set d)"
proof (induction d)
  case Nil
  show ?case by simp
next
  case (Cons p d)
  obtain a b where p: "p = (a, b)" by (cases p)
  show ?case
  proof (cases "a = k")
    case True
    then show ?thesis by (simp add: p)
  next
    case False
    then show ?thesis using Cons.IH by (simp add: p insert_commute)
  qed
qed

lemma store_flag_cols_key_set:
  assumes "\<forall>flags\<in>set cols. \<forall>v\<in>set flags. 0 \<le> v \<and> v < 2 ^ 64"
  shows "\<exists>d'. store_flag_cols C (enumerate m cols) d = Inr d'
           \<and> fst ` set d' = fst ` set d \<union> (\<lambda>j. upper C @ str_nat (j + 1)) ` {m..<m + length cols}"
  using assms
proof (induction cols arbitrary: m d)
  case Nil
  then show ?case by simp
next
  case (Cons flags cols)
  let ?nm = "\<lambda>j. upper C @ str_nat (j + 1)"
  let ?d = "od_set (?nm m) (map PyInt flags) d"
  have a: "uint64_array flags = Inr (map PyInt flags)"
    using Cons.prems by (simp add: uint64_array_ok)
  have r: "\<forall>flags\<in>set cols. \<forall>v\<in>set flags. 0 \<le> v \<and> v < 2 ^ 64" using Cons.prems by simp
  obtain d' where d': "store_flag_cols C (enumerate (Suc m) cols) ?d = Inr d'"
    and k: "fst ` set d' = fst ` set ?d \<union> ?nm ` {Suc m..<Suc m + length cols}"
    using Cons.IH [OF r] by blast
  have st: "store_flag_cols C (enumerate m (flags # cols)) d = Inr d'"
    using a d' by simp
  have "{m..<m + length (flags # cols)} = insert m {Suc m..<Suc m + length cols}"
    by auto
  then have "fst ` set d' = fst ` set d \<union> ?nm ` {m..<m + length (flags # cols)}"
    using k by (simp only: od_set_keys image_insert) blast
  then show ?case using st by blast
qed

lemma load_column_key_set:
  assumes fmt: "col_format col = str_nat W @ ''X''"
    and data: "col_data col = map PyFlags records"
    and ne: "records \<noteq> []"
    and len: "\<forall>r\<in>set records. length r = W"
  shows "\<exists>d'. load_column 64 col d = Inr d'
           \<and> fst ` set d' = fst ` set d \<union> set (spec_flag_column_names (col_name col) W)"
proof -
  let ?cols = "map (\<lambda>i. map (\<lambda>ys. ys ! i) (map (chunks 64) records)) [0..<nat \<lceil>real W / 64\<rceil>]"
  obtain d' where s: "store_flag_cols (col_name col) (enumerate 0 ?cols) d = Inr d'"
    and k: "fst ` set d' = fst ` set d
              \<union> (\<lambda>j. upper (col_name col) @ str_nat (j + 1)) ` {0..<0 + length ?cols}"
    using store_flag_cols_key_set [OF load_column_bit(2) [OF fmt data ne len]] by blast
  have "load_column 64 col d = Inr d'"
    using s load_column_bit(1) [OF fmt data ne len] by simp
  moreover have "fst ` set d' = fst ` set d \<union> set (spec_flag_column_names (col_name col) W)"
    using k by (simp add: spec_flag_column_names_def)
  ultimately show ?thesis by blast
qed

lemma names_142: "spec_flag_column_names ''name'' 142 = [''NAME1'', ''NAME2'', ''NAME3'']"
proof -
  have "nat \<lceil>real 142 / 64\<rceil> = 3" by simp
  then have "spec_flag_column_names ''name'' 142
      = map (\<lambda>j. upper ''name'' @ str_nat (j + 1)) [0..<3]"
    by (simp only: spec_flag_column_names_def)
  also have "\<dots> = [''NAME1'', ''NAME2'', ''NAME3'']" by code_simp
  finally show ?thesis .
qed

text \<open>
  Claim C1, amended. For every bit column with name \<open>C\<close> and format \<^verbatim>\<open>WX\<close> of a table with at
  least one record, each record holding \<open>W\<close> flags, the materializer (the body of the loop of
  \<^verbatim>\<open>BinTableData.__init__\<close>) and the schema emitter (\<^verbatim>\<open>write_bit_schema_column\<close>, to which
  \<^verbatim>\<open>write_schema_column\<close> dispatches) produce the same \<open>ceil (W / 64)\<close> columns, named
  \<open>UPPERCASE C\<close> followed by the index from 1 on: the materializer stores columns under
  exactly these names, in this order after the columns of the table when the table has none
  of them yet, and the schema emitter writes one line for each, in this order.
  For \<open>W = 142\<close> these are \<^verbatim>\<open>NAME1\<close>, \<^verbatim>\<open>NAME2\<close>, \<^verbatim>\<open>NAME3\<close>. The materializer takes the
  number of columns from the records, not from the format: on a table without records it
  produces no column for a bit column, while the schema emitter still writes
  \<open>ceil (W / 64)\<close> lines.
\<close>

theorem bit_column_names_agree:
  assumes "col_format col = str_nat W @ ''X''"
    and "col_data col = map PyFlags records"
    and "records \<noteq> []"
    and "\<forall>r\<in>set records. length r = W"
  shows "(\<exists>d'. load_column 64 col [] = Inr d'
           \<and> map fst d' = spec_flag_column_names (col_name col) W)
     \<and> (\<exists>d'. load_column 64 col d = Inr d'
           \<and> fst ` set d' = fst ` set d \<union> set (spec_flag_column_names (col_name col) W)
           \<and> ((\<forall>nm\<in>set (spec_flag_column_names (col_name col) W). nm \<notin> fst ` set d)
                \<longrightarrow> map fst d' = map fst d @ spec_flag_column_names (col_name col) W))
     \<and> write_schema_column col padding = write_bit_schema_column col padding
     \<and> write_bit_schema_column col padding
         = Inr (concat (map (\<lambda>nm. padding @ nm @ '' BIGINT UNSIGNED,'' @ newline)
                  (spec_flag_column_names (col_name col) W)))
     \<and> length (spec_flag_column_names (col_name col) W) = nat \<lceil>real W / 64\<rceil>"
proof -
  have e: "\<forall>nm\<in>set (spec_flag_column_names (col_name col) W). nm \<notin> fst ` set []" by simp
  have 1: "\<exists>d'. load_column 64 col [] = Inr d'
           \<and> map fst d' = spec_flag_column_names (col_name col) W"
    using load_column_names [OF assms e] by simp
  obtain d' where l: "load_column 64 col d = Inr d'"
    and s: "fst ` set d' = fst ` set d \<union> set (spec_flag_column_names (col_name col) W)"
    using load_column_key_set [OF assms] by blast
  have o: "map fst d' = map fst d @ spec_flag_column_names (col_name col) W"
    if "\<forall>nm\<in>set (spec_flag_column_names (col_name col) W). nm \<notin> fst ` set d"
    using load_column_names [OF assms that] l by auto
  have 2: "\<exists>d'. load_column 64 col d = Inr d'
           \<and> fst ` set d' = fst ` set d \<union> set (spec_flag_column_names (col_name col) W)
           \<and> ((\<forall>nm\<in>set (spec_flag_column_names (col_name col) W). nm \<notin> fst ` set d)
                \<longrightarrow> map fst d' = map fst d @ spec_flag_column_names (col_name col) W)"
    using l s o by blast
  have 3: "length (spec_flag_column_names (col_name col) W) = nat \<lceil>real W / 64\<rceil>"
    by (simp add: spec_flag_column_names_def)
  show ?thesis
    using 1 2 3 write_schema_column_bit [OF assms(1)] write_bit_schema_column_names [OF assms(1)]
    by (intro conjI)
qed

theorem bit_column_names_agree_witness:
  "col_format wide_column = str_nat 142 @ ''X''
   \<and> col_data wide_column = map PyFlags [replicate 142 True]
   \<and> spec_flag_column_names ''name'' 142 = [''NAME1'', ''NAME2'', ''NAME3'']
   \<and> (\<exists>d'. load_column 64 wide_column [] = Inr d'
          \<and> map fst d' = [''NAME1'', ''NAME2'', ''NAME3''])
   \<and> write_bit_schema_column wide_column ''''
       = Inr (''NAME1 BIGINT UNSIGNED,'' @ newline @ ''NAME2 BIGINT UNSIGNED,'' @ newline
              @ ''NAME3 BIGINT UNSIGNED,'' @ newline)"
proof -
  have 1: "col_format wide_column = str_nat 142 @ ''X''" by code_simp
  have 2: "col_data wide_column = map PyFlags [replicate 142 True]"
    by (simp add: wide_column_def)
  have 3: "[replicate 142 True] \<noteq> []" by simp
  have 4: "\<forall>r\<in>set [replicate 142 True]. length r = 142" by simp
  have n: "col_name wide_column = ''name''" by (simp add: wide_column_def)
  show ?thesis
    using bit_column_names_agree [OF 1 2 3 4, of "[]" "''''"] 1 2
    by (simp add: n names_142)
qed

theorem empty_table_counterexample:
  "col_format (empty_table ! 1) = str_nat 142 @ ''X''
   \<and> load_column 64 (empty_table ! 1) [] = Inr []
   \<and> write_bit_schema_column (empty_table ! 1) ''''
       = Inr (''NAME1 BIGINT UNSIGNED,'' @ newline @ ''NAME2 BIGINT UNSIGNED,'' @ newline
              @ ''NAME3 BIGINT UNSIGNED,'' @ newline)
   \<and> BinTableData empty_table 64 = Inr \<lparr>items = [(''RA'', [])], nrows = 0\<rparr>
   \<and> create_schema_from_fits empty_table ''T'' ''RA'' []
       = (''create table if not exists T ('' @ newline
          @ ''       RA DOUBLE,'' @ newline
          @ ''       NAME1 BIGINT UNSIGNED,'' @ newline
          @ ''       NAME2 BIGINT UNSIGNED,'' @ newline
          @ ''       NAME3 BIGINT UNSIGNED,'' @ newline
          @ ''       primary key (RA)'' @ newline
          @ ''       )'' @ newline, None)"
  by code_simp

section \<open>The end-to-end scenario\<close>

lemma example_materialized:
  "BinTableData (example_table ra1 ra2) 64
     = Inr \<lparr>items = [(''RA'', [PyFloat ra1, PyFloat ra2]), (''FLAGS1'', [PyInt 237, PyInt 0])],
            nrows = 2\<rparr>"
  by code_simp

text \<open>
  Claim C3, amended. For the table with the columns \<^verbatim>\<open>RA\<close> (format \<^verbatim>\<open>1D\<close>) and \<^verbatim>\<open>FLAGS\<close>
  (format \<^verbatim>\<open>9X\<close>) and two records with the flags \<^verbatim>\<open>[T,F,T,T,F,T,T,T,F]\<close> and nine times
  \<^verbatim>\<open>F\<close>, the materializer yields exactly the columns \<^verbatim>\<open>RA\<close>, with the two floats unchanged,
  and \<^verbatim>\<open>FLAGS1\<close>, with 237 (the sum of \<open>2 ^ i\<close> over the set bits) and 0. The schema emitter
  with table name \<^verbatim>\<open>T\<close> and empty primary key writes the lines of the claim, each indented by
  seven spaces, also the closing parenthesis, which is followed by a newline.
\<close>

theorem end_to_end_example:
  "BinTableData (example_table ra1 ra2) 64
     = Inr \<lparr>items = [(''RA'', [PyFloat ra1, PyFloat ra2]), (''FLAGS1'', [PyInt 237, PyInt 0])],
            nrows = 2\<rparr>
   \<and> (237::int) = 2 ^ 0 + 2 ^ 2 + 2 ^ 3 + 2 ^ 5 + 2 ^ 6 + 2 ^ 7
   \<and> create_schema_from_fits (example_table ra1 ra2) ''T'' '''' []
       = (''create table if not exists T ('' @ newline
          @ ''       RA DOUBLE,'' @ newline
          @ ''       FLAGS1 BIGINT UNSIGNED,'' @ newline
          @ ''       primary key ()'' @ newline
          @ ''       )'' @ newline, None)"
proof -
  have "create_schema_from_fits (example_table ra1 ra2) ''T'' '''' []
       = (''create table if not exists T ('' @ newline
          @ ''       RA DOUBLE,'' @ newline
          @ ''       FLAGS1 BIGINT UNSIGNED,'' @ newline
          @ ''       primary key ()'' @ newline
          @ ''       )'' @ newline, None)"
    by code_simp
  then show ?thesis using example_materialized [of ra1 ra2] by simp
qed

theorem end_to_end_example_witness:
  "BinTableData (example_table (Finite 3 0) (Finite 5 (- 1))) 64
     = Inr \<lparr>items = [(''RA'', [PyFloat (Finite 3 0), PyFloat (Finite 5 (- 1))]),
                     (''FLAGS1'', [PyInt 237, PyInt 0])],
            nrows = 2\<rparr>
   \<and> fst (create_schema_from_fits (example_table (Finite 3 0) (Finite 5 (- 1))) ''T'' '''' [])
       = ''create table if not exists T ('' @ newline
          @ ''       RA DOUBLE,'' @ newline
          @ ''       FLAGS1 BIGINT UNSIGNED,'' @ newline
          @ ''       primary key ()'' @ newline
          @ ''       )'' @ newline"
  using end_to_end_example [of "Finite 3 0" "Finite 5 (- 1)"] by simp

theorem schema_text_counterexample:
  "fst (create_schema_from_fits (example_table (Finite 3 0) (Finite 5 (- 1))) ''T'' '''' [])
     \<noteq> ''create table if not exists T ('' @ newline
        @ ''   RA DOUBLE,'' @ newline
        @ ''   FLAGS1 BIGINT UNSIGNED,'' @ newline
        @ ''   primary key ()'' @ newline
        @ '')''"
  by code_simp

section \<open>Properties of the CSV emitter\<close>



lemma csv_column_KeyError:
  assumes "\<And>coldata. map_of (items t) s = Some coldata \<Longrightarrow> f coldata = Inl KeyError"
  shows "csv_column t (callbacks(s \<mapsto> f)) colname = csv_column t (callbacks(s := None)) colname"
proof (cases colname)
  case (PyStr s')
  show ?thesis
  proof (cases "map_of (items t) s'")
    case None
    then show ?thesis by (simp add: csv_column_def PyStr)
  next
    case (Some coldata)
    show ?thesis
    proof (cases "s' = s")
      case True
      then show ?thesis using Some assms [of coldata]
        by (simp add: csv_column_def PyStr call_callback_def)
    next
      case False
      then show ?thesis using Some
        by (simp add: csv_column_def PyStr call_callback_def)
    qed
  qed
qed (simp_all add: csv_column_def)

lemma csv_columns_KeyError:
  assumes "\<And>coldata. map_of (items t) s = Some coldata \<Longrightarrow> f coldata = Inl KeyError"
  shows "csv_columns t (callbacks(s \<mapsto> f)) colnames = csv_columns t (callbacks(s := None)) colnames"
  by (induction colnames) (simp_all only: csv_columns.simps csv_column_KeyError [OF assms])

text \<open>
  Claim C9. If the callback registered for a column of the table raises \<^verbatim>\<open>KeyError\<close> on
  the column, the exception is swallowed: the column is written untransformed, and the
  emitter does what it does without a callback for this column.
\<close>

theorem callback_KeyError_swallowed:
  assumes "BinTableData bintable 64 = Inr t0"
    and "add_all_columns t0 (case added_columns of None \<Rightarrow> [] | Some a \<Rightarrow> a) = (t, None)"
    and "map_of (items t) s = Some coldata"
    and "f coldata = Inl KeyError"
  shows "csv_column t (callbacks(s \<mapsto> f)) (PyStr s) = Inr coldata
     \<and> create_csv_file_from_fits bintable column_mapping (Some (callbacks(s \<mapsto> f))) added_columns
       = create_csv_file_from_fits bintable column_mapping (Some (callbacks(s := None))) added_columns"
proof -
  have 1: "csv_column t (callbacks(s \<mapsto> f)) (PyStr s) = Inr coldata"
    using assms(3,4) by (simp add: csv_column_def call_callback_def)
  have k: "\<And>c. map_of (items t) s = Some c \<Longrightarrow> f c = Inl KeyError"
    using assms(3,4) by simp
  have 2: "csv_columns t (callbacks(s \<mapsto> f)) colnames = csv_columns t (callbacks(s := None)) colnames"
    for colnames by (rule csv_columns_KeyError [OF k])
  show ?thesis using 1 assms(1,2)
    by (simp add: create_csv_file_from_fits_def 2)
qed



lemma write_rows_prefix:
  "write_rows written rows = (out, e) \<Longrightarrow>
     \<exists>new. out = written @ new \<and> length new \<le> length rows
       \<and> (\<forall>k<length new. csv_row (rows ! k) = Inr (new ! k))"
proof (induction rows arbitrary: written)
  case Nil
  then show ?case by simp
next
  case (Cons row rows)
  show ?case
  proof (cases "csv_row row")
    case (Inl err)
    then show ?thesis using Cons.prems by simp
  next
    case (Inr r)
    then have "write_rows (written @ [r]) rows = (out, e)" using Cons.prems by simp
    then obtain new where n: "out = (written @ [r]) @ new" and l: "length new \<le> length rows"
      and f: "\<forall>k<length new. csv_row (rows ! k) = Inr (new ! k)"
      using Cons.IH by blast
    have "csv_row ((row # rows) ! k) = Inr ((r # new) ! k)" if "k < length (r # new)" for k
      using that Inr f by (cases k) simp_all
    moreover have "out = written @ (r # new)" using n by simp
    moreover have "length (r # new) \<le> length (row # rows)" using l by simp
    ultimately show ?thesis by blast
  qed
qed



lemma example_csv:
  "create_csv_file_from_fits (example_table (Finite 3 0) NaN) None None None
     = (Some [[PyStr ''RA'', PyStr ''FLAGS1''],
              [PyFloat (Finite 3 0), PyInt 237],
              [PyStr null_marker, PyInt 0]], None)"
  by code_simp

theorem callback_KeyError_swallowed_witness:
  "failing_callback [PyFloat (Finite 3 0), PyFloat NaN] = Inl KeyError
   \<and> create_csv_file_from_fits (example_table (Finite 3 0) NaN) None
        (Some (Map.empty(''RA'' \<mapsto> failing_callback))) None
      = create_csv_file_from_fits (example_table (Finite 3 0) NaN) None
        (Some (Map.empty(''RA'' := None))) None
   \<and> create_csv_file_from_fits (example_table (Finite 3 0) NaN) None
        (Some (Map.empty(''RA'' := None))) None
      = (Some [[PyStr ''RA'', PyStr ''FLAGS1''],
              [PyFloat (Finite 3 0), PyInt 237],
              [PyStr null_marker, PyInt 0]], None)"
proof -
  let ?t = "\<lparr>items = [(''RA'', [PyFloat (Finite 3 0), PyFloat NaN]),
                     (''FLAGS1'', [PyInt 237, PyInt 0])], nrows = 2\<rparr>"
  have 1: "BinTableData (example_table (Finite 3 0) NaN) 64 = Inr ?t"
    by (rule example_materialized)
  have 2: "add_all_columns ?t (case None of None \<Rightarrow> [] | Some a \<Rightarrow> a) = (?t, None)"
    by simp
  have 3: "map_of (items ?t) ''RA'' = Some [PyFloat (Finite 3 0), PyFloat NaN]" by simp
  have 4: "failing_callback [PyFloat (Finite 3 0), PyFloat NaN] = Inl KeyError"
    by (simp add: failing_callback_def)
  have 5: "create_csv_file_from_fits (example_table (Finite 3 0) NaN) None
        (Some (Map.empty(''RA'' := None))) None
      = (Some [[PyStr ''RA'', PyStr ''FLAGS1''],
              [PyFloat (Finite 3 0), PyInt 237],
              [PyStr null_marker, PyInt 0]], None)"
    using example_csv by (simp add: create_csv_file_from_fits_def)
  show ?thesis
    using 4 5 callback_KeyError_swallowed
      [where f = failing_callback and callbacks = Map.empty and column_mapping = None,
       OF 1 2 3 4]
    by (intro conjI) simp_all
qed



text \<open>
  Claim C4. With \<^verbatim>\<open>column_mapping=None\<close>, the first row written to the file is the list of
  the keys of the materialized table (with the added columns), in the order of the table.
\<close>

theorem default_header_is_keys:
  assumes "BinTableData bintable 64 = Inr t0"
    and "add_all_columns t0 (case added_columns of None \<Rightarrow> [] | Some a \<Rightarrow> a) = (t, None)"
  shows "\<exists>rows e. create_csv_file_from_fits bintable None callbacks added_columns
                     = (Some (map PyStr (keys t) # rows), e)"
proof -
  let ?cb = "case callbacks of None \<Rightarrow> Map.empty | Some c \<Rightarrow> c"
  let ?header = "map PyStr (keys t)"
  have h: "map PyStr (map fst (map (\<lambda>name. (name, PyStr name)) (keys t))) = ?header"
    by (simp add: comp_def)
  show ?thesis
  proof (cases "csv_columns t ?cb (map snd (map (\<lambda>name. (name, PyStr name)) (keys t)))")
    case (Inl e)
    then show ?thesis using assms
      by (simp add: create_csv_file_from_fits_def h del: map_map)
  next
    case (Inr columns)
    obtain written r where w: "write_rows [?header] (zip_star columns) = (written, r)"
      by (cases "write_rows [?header] (zip_star columns)") auto
    then obtain new where "written = [?header] @ new"
      using write_rows_prefix by blast
    then show ?thesis using assms Inr w
      by (simp add: create_csv_file_from_fits_def h del: map_map)
  qed
qed

theorem default_header_is_keys_witness:
  "BinTableData (example_table (Finite 3 0) NaN) 64
     = Inr \<lparr>items = [(''RA'', [PyFloat (Finite 3 0), PyFloat NaN]),
                     (''FLAGS1'', [PyInt 237, PyInt 0])], nrows = 2\<rparr>
   \<and> (\<exists>rows e. create_csv_file_from_fits (example_table (Finite 3 0) NaN) None None None
                  = (Some ([PyStr ''RA'', PyStr ''FLAGS1''] # rows), e))"
proof -
  let ?t = "\<lparr>items = [(''RA'', [PyFloat (Finite 3 0), PyFloat NaN]),
                     (''FLAGS1'', [PyInt 237, PyInt 0])], nrows = 2\<rparr>"
  have 1: "BinTableData (example_table (Finite 3 0) NaN) 64 = Inr ?t"
    by (rule example_materialized)
  have 2: "add_all_columns ?t (case None of None \<Rightarrow> [] | Some a \<Rightarrow> a) = (?t, None)"
    by simp
  have k: "map PyStr (keys ?t) = [PyStr ''RA'', PyStr ''FLAGS1'']"
    by (simp add: keys_def)
  show ?thesis using 1 default_header_is_keys [OF 1 2, of None]
    by (simp only: k)
qed

section \<open>Properties of the schema emitter\<close>

text \<open>
  Claim C7. For a column that is not a bit column, with the format read as the code reads
  it (the repeat count is \<^verbatim>\<open>int(format_[:-1])\<close>): with repeat count 1 and a format without entry
  in \<open>type_map\<close> the call raises \<^verbatim>\<open>KeyError\<close>; with a repeat count other than 1 nothing is
  written; a format without entry never yields a line with a default type. The map has
  entries for \<^verbatim>\<open>1D\<close>, \<^verbatim>\<open>1E\<close>, \<^verbatim>\<open>1K\<close>, \<^verbatim>\<open>1J\<close> and \<^verbatim>\<open>1I\<close> only.
\<close>

theorem write_schema_column_unknown_format:
  assumes "strip_chars [CHR 0x27] (col_format column) = format'"
    and "format' \<noteq> []" and "last format' \<noteq> CHR ''X''"
  shows "(py_int (butlast format') = Inr 1 \<and> type_map format' = None
            \<longrightarrow> write_schema_column column padding = Inl KeyError)
     \<and> (\<forall>n. py_int (butlast format') = Inr n \<and> n \<noteq> 1
            \<longrightarrow> write_schema_column column padding = Inr [])
     \<and> (type_map format' = None
            \<longrightarrow> (\<exists>e. write_schema_column column padding = Inl e)
                \<or> write_schema_column column padding = Inr [])
     \<and> dom type_map = {''1D'', ''1E'', ''1K'', ''1J'', ''1I''}"
proof -
  have d: "dom type_map = {''1D'', ''1E'', ''1K'', ''1J'', ''1I''}"
    by (auto simp add: type_map_def)
  show ?thesis using assms d
    by (auto simp add: write_schema_column_def split: sum.splits)
qed

theorem write_schema_column_unknown_format_witness:
  "py_int (butlast ''1A'') = Inr 1 \<and> type_map ''1A'' = None
   \<and> write_schema_column char_column ''       '' = Inl KeyError
   \<and> py_int (butlast ''3E'') = Inr 3
   \<and> write_schema_column vector_column ''       '' = Inr []"
proof -
  have a1: "strip_chars [CHR 0x27] (col_format char_column) = ''1A''" by code_simp
  have a2: "''1A'' \<noteq> []" "last ''1A'' \<noteq> CHR ''X''" by simp_all
  have a3: "py_int (butlast ''1A'') = Inr 1" by code_simp
  have a4: "type_map ''1A'' = None" by (simp add: type_map_def)
  have b1: "strip_chars [CHR 0x27] (col_format vector_column) = ''3E''" by code_simp
  have b2: "''3E'' \<noteq> []" "last ''3E'' \<noteq> CHR ''X''" by simp_all
  have b3: "py_int (butlast ''3E'') = Inr 3" by code_simp
  have 1: "write_schema_column char_column ''       '' = Inl KeyError"
    using write_schema_column_unknown_format [OF a1 a2, of "''       ''"] a3 a4 by blast
  have 2: "write_schema_column vector_column ''       '' = Inr []"
    using write_schema_column_unknown_format [OF b1 b2, of "''       ''"] b3 by auto
  show ?thesis using a3 a4 b3 1 2 by (intro conjI)
qed

section \<open>Properties of the header check\<close>

lemma check_pairs_zip:
  "length xs = length ys \<Longrightarrow>
     (xs = ys \<longrightarrow> check_pairs (zip xs ys) = Inr ())
     \<and> (xs \<noteq> ys \<longrightarrow> (\<exists>msg. check_pairs (zip xs ys) = Inl (RuntimeError msg)))"
  by (induction xs ys rule: list_induct2) auto

lemma check_column_names_cases:
  "(split (CHR '','') (strip (readline csv_file)) = column_names
      \<longrightarrow> check_column_names column_names csv_file = Inr ())
   \<and> (split (CHR '','') (strip (readline csv_file)) \<noteq> column_names
      \<longrightarrow> (\<exists>msg. check_column_names column_names csv_file = Inl (RuntimeError msg)))"
proof (cases "length (split (CHR '','') (strip (readline csv_file))) = length column_names")
  case True
  then show ?thesis
    using check_pairs_zip [OF True] by (simp add: check_column_names_def)
next
  case False
  then show ?thesis by (auto simp add: check_column_names_def)
qed

text \<open>
  Claim C8. \<^verbatim>\<open>check_column_names\<close> raises the \<^verbatim>\<open>RuntimeError\<close> of a mismatch if and only if
  the header of the file, split at the commas, differs from the column names of the table
  in length or at some position; it returns without error if and only if the two lists are
  equal.
\<close>

theorem check_column_names_mismatch:
  "((\<exists>msg. check_column_names column_names csv_file = Inl (RuntimeError msg))
      \<longleftrightarrow> (length (split (CHR '','') (strip (readline csv_file))) \<noteq> length column_names
           \<or> (\<exists>i<length column_names.
                 split (CHR '','') (strip (readline csv_file)) ! i \<noteq> column_names ! i)))
   \<and> (check_column_names column_names csv_file = Inr ()
      \<longleftrightarrow> split (CHR '','') (strip (readline csv_file)) = column_names)"
proof -
  let ?cols = "split (CHR '','') (strip (readline csv_file))"
  have e: "?cols \<noteq> column_names
      \<longleftrightarrow> (length ?cols \<noteq> length column_names \<or> (\<exists>i<length column_names. ?cols ! i \<noteq> column_names ! i))"
    by (auto simp add: list_eq_iff_nth_eq)
  have "(\<exists>msg. check_column_names column_names csv_file = Inl (RuntimeError msg))
      \<longleftrightarrow> ?cols \<noteq> column_names"
    using check_column_names_cases [of csv_file column_names] by auto
  moreover have "check_column_names column_names csv_file = Inr () \<longleftrightarrow> ?cols = column_names"
    using check_column_names_cases [of csv_file column_names] by auto
  ultimately show ?thesis using e by simp
qed

theorem check_column_names_mismatch_witness:
  "check_column_names [''RA'', ''FLAGS1''] csv_example = Inr ()
   \<and> (\<exists>msg. check_column_names [''RA'', ''FLAGS2''] csv_example = Inl (RuntimeError msg))
   \<and> (\<exists>msg. check_column_names [''RA''] csv_example = Inl (RuntimeError msg))"
proof -
  have s: "split (CHR '','') (strip (readline csv_example)) = [''RA'', ''FLAGS1'']"
    by (simp add: csv_example_def strip_def strip_chars_def whitespace_def)
  have 1: "check_column_names [''RA'', ''FLAGS1''] csv_example = Inr ()"
    using check_column_names_mismatch [of "[''RA'', ''FLAGS1'']" csv_example] s by simp
  have "split (CHR '','') (strip (readline csv_example)) ! 1 \<noteq> [''RA'', ''FLAGS2''] ! 1"
    by (simp add: s)
  then have "\<exists>i<length [''RA'', ''FLAGS2''].
      split (CHR '','') (strip (readline csv_example)) ! i \<noteq> [''RA'', ''FLAGS2''] ! i"
    by (intro exI [of _ 1]) simp
  then have 2: "\<exists>msg. check_column_names [''RA'', ''FLAGS2''] csv_example = Inl (RuntimeError msg)"
    using check_column_names_mismatch [of "[''RA'', ''FLAGS2'']" csv_example] by blast
  have "length (split (CHR '','') (strip (readline csv_example))) \<noteq> length [''RA'']"
    by (simp add: s)
  then have 3: "\<exists>msg. check_column_names [''RA''] csv_example = Inl (RuntimeError msg)"
    using check_column_names_mismatch [of "[''RA'']" csv_example] by blast
  show ?thesis using 1 2 3 by (intro conjI)
qed

end
